theory Spec2Isabelle
  imports Main "HOL-Library.Sublist" "HOL-Library.AList"
begin

section \<open>Shared types (mcp/types.ts, settings/SettingsSchema.ts)\<close>

text \<open>
  JavaScript strings are modelled as \<^typ>\<open>string\<close>: every \<^typ>\<open>char\<close> is one
  UTF-16 code unit in the range 0..255 (Latin-1). On that range \<open>String.normalize('NFC')\<close>
  is the identity, and the only code unit that Obsidian's \<open>normalizePath\<close> rewrites besides
  the separators is U+00A0.
\<close>

record ObsidianCCSettings =
  requireApproval :: bool
  auditLogging :: bool
  debugMode :: bool

text \<open>
  Every \<open>Error\<close> the MCP layer raises or returns, one constructor per message of the
  source; \<open>CollaboratorError\<close> stands for a failure raised inside the vault, QMD or
  tasks collaborator.
\<close>

datatype error =
    PathRequired
  | PathEmpty
  | DangerousPattern
  | AbsolutePath
  | EscapesVault
  | HiddenPath
  | ExtensionNotAllowed string
  | NoteNotFound "string option"
  | NoteAlreadyExists "string option"
  | NoteNotFoundForAppend "string option"
  | OperationDenied
  | CollaboratorError string

datatype entry_type = tool_call | resource_read | approval_request | approval_response

text \<open>\<open>AuditEntry\<close> without its timestamp is what \<open>AuditLogger.log\<close> receives.\<close>

record AuditEvent =
  entry_type :: entry_type
  entry_tool :: "string option"
  entry_path :: "string option"
  entry_clientId :: "string option"
  entry_success :: bool
  entry_error :: "error option"
  entry_details :: "bool option"

text \<open>
  The clock is \<open>Date.now()\<close> in milliseconds; an entry carries the clock value whose ISO
  string the source stores.
\<close>

record AuditEntry = AuditEvent +
  entry_timestamp :: nat

section \<open>AuditLogger (mcp/security/AuditLogger.ts)\<close>

record AuditLogger =
  settings :: ObsidianCCSettings
  logs :: "AuditEntry list"

definition maxLogSize :: nat where
  "maxLogSize = 1000"

definition AuditLogger_new :: "ObsidianCCSettings \<Rightarrow> AuditLogger" where
  "AuditLogger_new st = \<lparr>settings = st, logs = []\<rparr>"

text \<open>\<open>xs.slice(-n)\<close> for \<open>n > 0\<close>: the last \<open>n\<close> elements, all of them when there are fewer.\<close>

definition slice_last :: "nat \<Rightarrow> 'a list \<Rightarrow> 'a list" where
  "slice_last n xs = drop (length xs - n) xs"

definition stamp :: "nat \<Rightarrow> AuditEvent \<Rightarrow> AuditEntry" where
  "stamp now ev =
     \<lparr>entry_type = entry_type ev, entry_tool = entry_tool ev, entry_path = entry_path ev,
      entry_clientId = entry_clientId ev, entry_success = entry_success ev,
      entry_error = entry_error ev, entry_details = entry_details ev,
      entry_timestamp = now\<rparr>"

text \<open>
  \<open>log(event)\<close>; \<open>now\<close> is the clock at the call. The
  console output under \<open>debugMode\<close> does not touch the buffer and is left out.
\<close>

definition log :: "nat \<Rightarrow> AuditEvent \<Rightarrow> AuditLogger \<Rightarrow> AuditLogger" where
  "log now ev a =
     (if \<not> auditLogging (settings a) then a
      else
        let pushed = logs a @ [stamp now ev]
        in if length pushed > maxLogSize
           then a\<lparr>logs := slice_last maxLogSize pushed\<rparr>
           else a\<lparr>logs := pushed\<rparr>)"

definition logToolCall ::
  "nat \<Rightarrow> string \<Rightarrow> string option \<Rightarrow> bool \<Rightarrow> error option \<Rightarrow> AuditLogger \<Rightarrow> AuditLogger" where
  "logToolCall now tool path ok err a =
     log now \<lparr>entry_type = tool_call, entry_tool = Some tool, entry_path = path,
              entry_clientId = None, entry_success = ok, entry_error = err,
              entry_details = None\<rparr> a"

definition logApprovalRequest ::
  "nat \<Rightarrow> string \<Rightarrow> string option \<Rightarrow> string option \<Rightarrow> AuditLogger \<Rightarrow> AuditLogger" where
  "logApprovalRequest now tool path client a =
     log now \<lparr>entry_type = approval_request, entry_tool = Some tool, entry_path = path,
              entry_clientId = client, entry_success = True, entry_error = None,
              entry_details = None\<rparr> a"

definition logApprovalResponse ::
  "nat \<Rightarrow> string \<Rightarrow> string option \<Rightarrow> bool \<Rightarrow> string option \<Rightarrow> AuditLogger \<Rightarrow> AuditLogger" where
  "logApprovalResponse now tool path approved client a =
     log now \<lparr>entry_type = approval_response, entry_tool = Some tool, entry_path = path,
              entry_clientId = client, entry_success = approved, entry_error = None,
              entry_details = Some approved\<rparr> a"

definition clearLogs :: "AuditLogger \<Rightarrow> AuditLogger" where
  "clearLogs a = a\<lparr>logs := []\<rparr>"

definition updateSettings :: "ObsidianCCSettings \<Rightarrow> AuditLogger \<Rightarrow> AuditLogger" where
  "updateSettings st a = a\<lparr>settings := st\<rparr>"

text \<open>The calls that mutate an \<open>AuditLogger\<close>, and a run of them from a fresh logger.\<close>

datatype logger_call =
    Log nat AuditEvent
  | ClearLogs
  | UpdateSettings ObsidianCCSettings

fun logger_step :: "logger_call \<Rightarrow> AuditLogger \<Rightarrow> AuditLogger" where
  "logger_step (Log now ev) a = log now ev a"
| "logger_step ClearLogs a = clearLogs a"
| "logger_step (UpdateSettings st) a = updateSettings st a"

definition logger_run :: "logger_call list \<Rightarrow> AuditLogger \<Rightarrow> AuditLogger" where
  "logger_run calls a = fold logger_step calls a"

section \<open>String and path primitives of the platform\<close>

text \<open>
  \<open>PathValidator\<close> calls into the JavaScript string library, Obsidian's
  \<open>normalizePath\<close> and Node's \<open>path\<close> module (POSIX flavour). They are not part of the
  repository; the definitions below follow their published implementations on the
  modelled character range.
\<close>

definition startsWith :: "string \<Rightarrow> string \<Rightarrow> bool" where
  "startsWith s p = prefix p s"

definition endsWith :: "string \<Rightarrow> string \<Rightarrow> bool" where
  "endsWith s p = suffix p s"

text \<open>\<open>s.includes(p)\<close>, also the test of a regular expression that is a literal.\<close>

fun str_includes :: "string \<Rightarrow> string \<Rightarrow> bool" where
  "str_includes [] p = (p = [])"
| "str_includes (c # cs) p = (prefix p (c # cs) \<or> str_includes cs p)"

text \<open>\<open>s.split(sep)\<close> for a one-character separator; \<open>''.split('/')\<close> is \<open>['']\<close>.\<close>

fun split :: "char \<Rightarrow> string \<Rightarrow> string list" where
  "split sep [] = [[]]"
| "split sep (c # cs) =
     (if c = sep then [] # split sep cs
      else (case split sep cs of [] \<Rightarrow> [[c]] | p # ps \<Rightarrow> (c # p) # ps))"

fun join :: "string \<Rightarrow> string list \<Rightarrow> string" where
  "join sep [] = []"
| "join sep [p] = p"
| "join sep (p # q # ps) = p @ sep @ join sep (q # ps)"

text \<open>White space of \<open>String.prototype.trim\<close> below U+0100: TAB, LF, VT, FF, CR, SP, NBSP.\<close>

definition isWhiteSpace :: "char \<Rightarrow> bool" where
  "isWhiteSpace c = (c \<in> {CHR 0x09, CHR 0x0A, CHR 0x0B, CHR 0x0C, CHR 0x0D, CHR 0x20, CHR 0xA0})"

definition trim :: "string \<Rightarrow> string" where
  "trim s = rev (dropWhile isWhiteSpace (rev (dropWhile isWhiteSpace s)))"

text \<open>\<open>toLowerCase\<close> below U+0100: A-Z and the Latin-1 capitals U+00C0..U+00DE except U+00D7.\<close>

definition toLowerChar :: "char \<Rightarrow> char" where
  "toLowerChar c =
     (let n = (of_char c :: nat)
      in if (65 \<le> n \<and> n \<le> 90) \<or> (192 \<le> n \<and> n \<le> 222 \<and> n \<noteq> 215)
         then char_of (n + 32) else c)"

definition toLowerCase :: "string \<Rightarrow> string" where
  "toLowerCase s = map toLowerChar s"

text \<open>
  The test of a literal regular expression with the \<open>i\<close> flag whose pattern is in lower
  case: a match in the lower-cased subject.
\<close>

definition includes_ignoring_case :: "string \<Rightarrow> string \<Rightarrow> bool" where
  "includes_ignoring_case s p = str_includes (toLowerCase s) p"

definition isAsciiLetter :: "char \<Rightarrow> bool" where
  "isAsciiLetter c =
     (let n = (of_char c :: nat) in (65 \<le> n \<and> n \<le> 90) \<or> (97 \<le> n \<and> n \<le> 122))"

text \<open>The test of \<open>/^[A-Za-z]:/\<close>.\<close>

fun hasDriveLetter :: "string \<Rightarrow> bool" where
  "hasDriveLetter (c # d # _) = (isAsciiLetter c \<and> d = CHR '':'')"
| "hasDriveLetter _ = False"

subsection \<open>Obsidian's normalizePath\<close>

definition isSeparator :: "char \<Rightarrow> bool" where
  "isSeparator c = (c = CHR ''/'' \<or> c = CHR 0x5C)"

text \<open>
  \<open>path.replace(/([\\/])+/g, '/')\<close>: every maximal run of slashes and backslashes becomes
  one slash. The flag says that the previous character belonged to such a run.
\<close>

fun collapseSeparators :: "bool \<Rightarrow> string \<Rightarrow> string" where
  "collapseSeparators inRun [] = []"
| "collapseSeparators inRun (c # cs) =
     (if isSeparator c
      then (if inRun then collapseSeparators True cs else CHR ''/'' # collapseSeparators True cs)
      else c # collapseSeparators False cs)"

text \<open>\<open>path.replace(/(^\/+|\/+$)/g, '')\<close>.\<close>

definition stripSlashes :: "string \<Rightarrow> string" where
  "stripSlashes s =
     rev (dropWhile (\<lambda>c. c = CHR ''/'') (rev (dropWhile (\<lambda>c. c = CHR ''/'') s)))"

text \<open>
  \<open>normalizePath\<close>: collapse the separators, strip the slashes at both ends, write the
  empty result as \<open>/\<close>, and replace the no-break space by a space (U+202F, the other
  character it replaces, lies outside the modelled range).
\<close>

definition normalizePath :: "string \<Rightarrow> string" where
  "normalizePath path =
     (let stripped = stripSlashes (collapseSeparators False path);
          rooted = (if stripped = [] then ''/'' else stripped)
      in map (\<lambda>c. if c = CHR 0xA0 then CHR '' '' else c) rooted)"

subsection \<open>Node's path.resolve and path.extname (POSIX)\<close>

text \<open>
  \<open>normalizeString\<close> of Node's \<open>lib/path.js\<close> walks the characters and keeps the result
  as a string; seen on the segments between the slashes it skips empty and \<open>.\<close> segments,
  lets \<open>..\<close> remove the last segment kept (unless that is \<open>..\<close> itself or there is none,
  where \<open>..\<close> is kept only if \<open>allowAboveRoot\<close>), and keeps every other segment.
\<close>

definition normalizeStep :: "bool \<Rightarrow> string list \<Rightarrow> string \<Rightarrow> string list" where
  "normalizeStep allowAboveRoot res seg =
     (if seg = [] \<or> seg = ''.'' then res
      else if seg = ''..'' then
        (if res \<noteq> [] \<and> last res \<noteq> ''..'' then butlast res
         else if allowAboveRoot then res @ [''..''] else res)
      else res @ [seg])"

definition normalizeString :: "string \<Rightarrow> bool \<Rightarrow> string" where
  "normalizeString path allowAboveRoot =
     join ''/'' (foldl (normalizeStep allowAboveRoot) [] (split CHR ''/'' path))"

text \<open>
  The loop of \<open>path.resolve\<close>, over the arguments from the last to the first and then the
  working directory, until an absolute one has been prepended.
\<close>

fun resolveArgs :: "string list \<Rightarrow> string \<Rightarrow> string \<times> bool" where
  "resolveArgs [] resolvedPath = (resolvedPath, False)"
| "resolveArgs (p # ps) resolvedPath =
     (if p = [] then resolveArgs ps resolvedPath
      else if hd p = CHR ''/'' then (p @ ''/'' @ resolvedPath, True)
      else resolveArgs ps (p @ ''/'' @ resolvedPath))"

definition path_resolve :: "string \<Rightarrow> string list \<Rightarrow> string" where
  "path_resolve cwd args =
     (case resolveArgs (rev args @ [cwd]) [] of
        (resolvedPath, resolvedAbsolute) \<Rightarrow>
          let n = normalizeString resolvedPath (\<not> resolvedAbsolute)
          in if resolvedAbsolute then ''/'' @ n
             else if n \<noteq> [] then n else ''.'')"

text \<open>
  \<open>path.extname\<close>: in the last segment of the path (trailing slashes ignored), the part
  from the last dot on; empty when there is no dot, when the dot is the first character
  of the segment, and when the segment is \<open>..\<close>.
\<close>

definition path_extname :: "string \<Rightarrow> string" where
  "path_extname path =
     (let rbase = takeWhile (\<lambda>c. c \<noteq> CHR ''/'') (dropWhile (\<lambda>c. c = CHR ''/'') (rev path));
          rext = takeWhile (\<lambda>c. c \<noteq> CHR ''.'') rbase;
          rstem = drop (Suc (length rext)) rbase
      in if CHR ''.'' \<notin> set rbase \<or> rstem = [] \<or> rbase = ''..'' then []
         else CHR ''.'' # rev rext)"

section \<open>PathValidator (mcp/security/PathValidator.ts)\<close>

definition ALLOWED_EXTENSIONS :: "string list" where
  "ALLOWED_EXTENSIONS = [''.md'', ''.txt'', ''.json'', ''.yaml'', ''.yml'', ''.csv'']"

text \<open>\<open>DANGEROUS_PATTERNS\<close>, each regular expression as its test.\<close>

definition DANGEROUS_PATTERNS :: "(string \<Rightarrow> bool) list" where
  "DANGEROUS_PATTERNS =
     [\<lambda>s. str_includes s ''..'',
      \<lambda>s. startsWith s ''~/'',
      \<lambda>s. startsWith s ''$'',
      \<lambda>s. includes_ignoring_case s ''%2e%2e'',
      \<lambda>s. includes_ignoring_case s ''%252e%252e'',
      \<lambda>s. str_includes s [CHR 0x00]]"

text \<open>
  \<open>PathValidationResult\<close>: \<open>Inl\<close> the error of an invalid result, \<open>Inr\<close> the sanitized
  path of a valid one. \<open>cwd\<close> is the working directory of the process, which
  \<open>path.resolve\<close> reads when the vault path is not absolute.
\<close>

definition vaultWithSep :: "string \<Rightarrow> string" where
  "vaultWithSep vaultPath = (if endsWith vaultPath ''/'' then vaultPath else vaultPath @ ''/'')"

definition isHidden :: "string \<Rightarrow> bool" where
  "isHidden part = (startsWith part ''.'' \<and> part \<noteq> ''.'')"

definition validate :: "string \<Rightarrow> string \<Rightarrow> string \<Rightarrow> error + string" where
  "validate cwd vaultPath requestedPath =
     (if requestedPath = [] then Inl PathRequired
      else if trim requestedPath = [] then Inl PathEmpty
      else if list_ex (\<lambda>pattern. pattern requestedPath) DANGEROUS_PATTERNS then Inl DangerousPattern
      else if startsWith requestedPath ''/'' \<or> hasDriveLetter requestedPath then Inl AbsolutePath
      else
        let normalized = normalizePath requestedPath;
            absolutePath = path_resolve cwd [vaultPath, normalized]
        in if absolutePath \<noteq> vaultPath \<and> \<not> startsWith absolutePath (vaultWithSep vaultPath)
           then Inl EscapesVault
           else if list_ex isHidden (split CHR ''/'' normalized) then Inl HiddenPath
           else Inr normalized)"

definition validateWithExtension :: "string \<Rightarrow> string \<Rightarrow> string \<Rightarrow> bool \<Rightarrow> error + string" where
  "validateWithExtension cwd vaultPath requestedPath requireExtension =
     (case validate cwd vaultPath requestedPath of
        Inl e \<Rightarrow> Inl e
      | Inr sanitized \<Rightarrow>
          let ext = toLowerCase (path_extname requestedPath)
          in if ext = [] \<and> requireExtension
             then Inr (normalizePath (requestedPath @ ''.md''))
             else if ext \<noteq> [] \<and> ext \<notin> set ALLOWED_EXTENSIONS
             then Inl (ExtensionNotAllowed ext)
             else Inr sanitized)"

text \<open>\<open>validateFolder\<close>; the last step is \<open>replace(/\/+$/, '')\<close>.\<close>

definition validateFolder :: "string \<Rightarrow> string \<Rightarrow> string \<Rightarrow> error + string" where
  "validateFolder cwd vaultPath folderPath =
     (if folderPath = [] then Inr []
      else case validate cwd vaultPath folderPath of
        Inl e \<Rightarrow> Inl e
      | Inr sanitized \<Rightarrow> Inr (rev (dropWhile (\<lambda>c. c = CHR ''/'') (rev sanitized))))"

section \<open>OperationGuard (mcp/security/OperationGuard.ts)\<close>

record MCPOperation =
  op_tool :: string
  op_path :: "string option"
  op_action :: "string option"
  op_timestamp :: nat
  op_clientId :: "string option"

definition WRITE_TOOLS :: "string list" where
  "WRITE_TOOLS = [''write_note'', ''add_task'', ''complete_task'']"

definition approvalTimeout :: nat where
  "approvalTimeout = 30000"

definition requiresApproval :: "ObsidianCCSettings \<Rightarrow> MCPOperation \<Rightarrow> bool" where
  "requiresApproval st operation =
     (if \<not> requireApproval st then False else op_tool operation \<in> set WRITE_TOOLS)"

text \<open>
  Every call of \<open>requestApproval\<close> creates one promise; promises are numbered in the
  order of their creation. The functions that the source creates as closures are
  modelled by the data they capture:
  \<^item> the entry stored in \<open>pendingApprovals\<close> under \<open>id\<close> holds the operation and the
    promise that its \<open>resolve\<close> field settles, which also names its timer;
  \<^item> an armed timer holds the \<open>id\<close>, the operation and the promise of the request
    that armed it, and the clock value from which it is due.
  \<open>settled\<close> lists every call of a promise's \<open>resolve\<close>, in order, with the path that
  made it; the value the promise takes is the one of the first call.
\<close>

datatype resolution = ByUser bool | ByTimeout | ByCancel

fun resolved_value :: "resolution \<Rightarrow> bool" where
  "resolved_value (ByUser approved) = approved"
| "resolved_value ByTimeout = False"
| "resolved_value ByCancel = False"

record PendingApproval =
  pa_id :: string
  pa_operation :: MCPOperation
  pa_promise :: nat

record Timer =
  timer_promise :: nat
  timer_id :: string
  timer_operation :: MCPOperation
  timer_due :: nat

record OperationGuard =
  og_settings :: ObsidianCCSettings
  auditLogger :: AuditLogger
  pendingApprovals :: "(string \<times> PendingApproval) list"
  timers :: "Timer list"
  settled :: "(nat \<times> resolution) list"
  clock :: nat
  nextPromise :: nat

definition OperationGuard_new :: "ObsidianCCSettings \<Rightarrow> AuditLogger \<Rightarrow> nat \<Rightarrow> OperationGuard" where
  "OperationGuard_new st a now =
     \<lparr>og_settings = st, auditLogger = a, pendingApprovals = [], timers = [], settled = [],
      clock = now, nextPromise = 0\<rparr>"

definition clearTimeout :: "nat \<Rightarrow> OperationGuard \<Rightarrow> OperationGuard" where
  "clearTimeout promise g = g\<lparr>timers := filter (\<lambda>t. timer_promise t \<noteq> promise) (timers g)\<rparr>"

text \<open>
  \<open>requestApproval(operation)\<close> up to the point where the modal is open; \<open>id\<close> is the
  string built from \<open>Date.now()\<close> and \<open>Math.random()\<close>. The result names the promise
  returned to the caller.
\<close>

definition requestApproval :: "MCPOperation \<Rightarrow> string \<Rightarrow> OperationGuard \<Rightarrow> OperationGuard \<times> nat" where
  "requestApproval operation ident g =
     (let promise = nextPromise g;
          logged = logApprovalRequest (clock g) (op_tool operation) (op_path operation)
                     (op_clientId operation) (auditLogger g);
          timeout = \<lparr>timer_promise = promise, timer_id = ident, timer_operation = operation,
                     timer_due = clock g + approvalTimeout\<rparr>
      in (g\<lparr>auditLogger := logged,
            timers := timers g @ [timeout],
            pendingApprovals :=
              AList.update ident \<lparr>pa_id = ident, pa_operation = operation, pa_promise = promise\<rparr>
                (pendingApprovals g),
            nextPromise := Suc promise\<rparr>,
          promise))"

text \<open>The callback given to \<open>setTimeout\<close>, run by the event loop when the timer is due.\<close>

definition timeoutCallback :: "Timer \<Rightarrow> OperationGuard \<Rightarrow> OperationGuard" where
  "timeoutCallback t g =
     (case map_of (pendingApprovals g) (timer_id t) of
        None \<Rightarrow> g
      | Some pending \<Rightarrow>
          g\<lparr>pendingApprovals := AList.delete (timer_id t) (pendingApprovals g),
            auditLogger := logApprovalResponse (clock g) (op_tool (timer_operation t))
                             (op_path (timer_operation t)) False
                             (op_clientId (timer_operation t)) (auditLogger g),
            settled := settled g @ [(timer_promise t, ByTimeout)]\<rparr>)"

text \<open>
  The \<open>resolve\<close> field of a pending entry, called with \<open>approved\<close>; \<open>how\<close> records the
  caller.
\<close>

definition pending_resolve :: "PendingApproval \<Rightarrow> bool \<Rightarrow> resolution \<Rightarrow> OperationGuard \<Rightarrow> OperationGuard" where
  "pending_resolve pending approved how g =
     (let g1 = clearTimeout (pa_promise pending) g
      in g1\<lparr>pendingApprovals := AList.delete (pa_id pending) (pendingApprovals g1),
             auditLogger := logApprovalResponse (clock g1) (op_tool (pa_operation pending))
                              (op_path (pa_operation pending)) approved
                              (op_clientId (pa_operation pending)) (auditLogger g1),
             settled := settled g1 @ [(pa_promise pending, how)]\<rparr>)"

text \<open>The callback given to the \<open>ApprovalModal\<close> of the request with this \<open>id\<close>.\<close>

definition modalCallback :: "string \<Rightarrow> bool \<Rightarrow> OperationGuard \<Rightarrow> OperationGuard" where
  "modalCallback ident approved g =
     (case map_of (pendingApprovals g) ident of
        None \<Rightarrow> g
      | Some pending \<Rightarrow> pending_resolve pending approved (ByUser approved) g)"

text \<open>
  \<open>cancelAll()\<close>: the loop visits the entries in insertion order; each visit removes the
  visited entry only.
\<close>

definition cancelAll :: "OperationGuard \<Rightarrow> OperationGuard" where
  "cancelAll g =
     (fold (\<lambda>(ident, pending) g'. pending_resolve pending False ByCancel
                                    (clearTimeout (pa_promise pending) g'))
           (pendingApprovals g) g)
     \<lparr>pendingApprovals := []\<rparr>"

text \<open>
  The passage of \<open>dt\<close> milliseconds: the event loop then runs the callbacks of the armed
  timers that are due, in the order in which they were armed.
\<close>

definition elapse :: "nat \<Rightarrow> OperationGuard \<Rightarrow> OperationGuard" where
  "elapse dt g =
     (let now = clock g + dt;
          due = filter (\<lambda>t. timer_due t \<le> now) (timers g)
      in fold timeoutCallback due
           (g\<lparr>clock := now, timers := filter (\<lambda>t. \<not> timer_due t \<le> now) (timers g)\<rparr>))"

text \<open>What can happen to a guard, and a run of such events.\<close>

datatype guard_event =
    Request MCPOperation string
  | ModalResponse string bool
  | CancelAll
  | Elapse nat




text \<open>The value that \<open>await\<close> on the promise yields once it is settled.\<close>

definition promise_value :: "OperationGuard \<Rightarrow> nat \<Rightarrow> bool option" where
  "promise_value g promise = map_option resolved_value (map_of (settled g) promise)"

text \<open>
  \<open>executeWithApproval(operation, executor)\<close> from the point where the approval, if one
  was required, has been awaited with the result \<open>approved\<close>. The executor acts on the
  state \<open>w\<close> of the collaborators and returns its result or the error it throws.
\<close>

definition executeWithApproval ::
  "ObsidianCCSettings \<Rightarrow> MCPOperation \<Rightarrow> bool \<Rightarrow> ('w \<Rightarrow> (error + 'a) \<times> 'w) \<Rightarrow> 'w \<Rightarrow> (error + 'a) \<times> 'w" where
  "executeWithApproval st operation approved executor w =
     (if requiresApproval st operation \<and> \<not> approved then (Inl OperationDenied, w)
      else executor w)"

section \<open>MCPServer (mcp/MCPServer.ts)\<close>

subsection \<open>Collaborators\<close>

text \<open>
  The vault, the QMD client and the tasks adapter are outside the server. Their answers
  are given by a record of functions; the server state keeps the list of the calls made
  to them, in order. A tool argument is a string or absent (\<open>None\<close>), as the casts of
  \<open>executeTool\<close> declare; the arguments that only shape the returned text
  (\<open>includeMetadata\<close>, \<open>recursive\<close>, \<open>limit\<close>, the task filters) are left out, and so
  are the text itself and the metadata cache from which \<open>readNote\<close> fills it.
\<close>

datatype abstract_file = NoEntry | TFile | TFolder

datatype collab_call =
    GetAbstractFileByPath string
  | VaultRead string
  | VaultModify string "string option"
  | VaultCreate string "string option"
  | VaultCreateFolder string
  | GetMarkdownFiles
  | QmdIsAvailable
  | QmdSearch "string option"
  | QueryTasks
  | TasksAddTask "string option" string
  | TasksCompleteTask "string option"

record Collaborators =
  fileAt :: "string \<Rightarrow> abstract_file"
  readResult :: "string \<Rightarrow> error + string"
  modifyError :: "string \<Rightarrow> error option"
  createError :: "string \<Rightarrow> error option"
  createFolderError :: "string \<Rightarrow> error option"
  qmdAvailable :: bool
  searchError :: "error option"
  queryError :: "error option"
  addTaskError :: "string \<Rightarrow> error option"
  completeTaskError :: "string option \<Rightarrow> error option"

record ToolArgs =
  arg_path :: "string option"
  arg_content :: "string option"
  arg_mode :: "string option"
  arg_query :: "string option"
  arg_folder :: "string option"
  arg_notePath :: "string option"
  arg_description :: "string option"
  arg_taskId :: "string option"

datatype tool_error = Thrown error | UnknownTool string | QmdNotAvailable

text \<open>\<open>ToolResponse\<close>: the content of a success, or \<open>isError\<close> with what the text reports.\<close>

datatype ToolResponse = Content | IsError tool_error

subsection \<open>Server state\<close>

record MCPServer =
  operationGuard :: OperationGuard
  authToken :: string
  requestCounts :: "string \<rightharpoonup> nat \<times> nat"
  vaultPath :: string
  processCwd :: string
  collabCalls :: "collab_call list"

text \<open>
  The \<open>auditLogger\<close> of the server is the object it hands to its \<open>OperationGuard\<close>; the
  clock of the guard is the clock of the process.
\<close>

definition srv_logToolCall ::
  "string \<Rightarrow> string option \<Rightarrow> bool \<Rightarrow> error option \<Rightarrow> MCPServer \<Rightarrow> MCPServer" where
  "srv_logToolCall tool path ok err s =
     s\<lparr>operationGuard := (operationGuard s)
          \<lparr>auditLogger := logToolCall (clock (operationGuard s)) tool path ok err
                            (auditLogger (operationGuard s))\<rparr>\<rparr>"

definition srv_call :: "collab_call \<Rightarrow> MCPServer \<Rightarrow> MCPServer" where
  "srv_call c s = s\<lparr>collabCalls := collabCalls s @ [c]\<rparr>"

definition audit_logs :: "MCPServer \<Rightarrow> AuditEntry list" where
  "audit_logs s = logs (auditLogger (operationGuard s))"

text \<open>What an audit entry says of a call: its type, tool, path and outcome.\<close>

definition entry_summary :: "AuditEntry \<Rightarrow> entry_type \<times> string option \<times> string option \<times> bool" where
  "entry_summary e = (entry_type e, entry_tool e, entry_path e, entry_success e)"

subsection \<open>Rate limiting\<close>

definition rateLimit :: nat where
  "rateLimit = 100"

definition checkRateLimit ::
  "string \<Rightarrow> nat \<Rightarrow> (string \<rightharpoonup> nat \<times> nat) \<Rightarrow> bool \<times> (string \<rightharpoonup> nat \<times> nat)" where
  "checkRateLimit clientId now counts =
     (case counts clientId of
        None \<Rightarrow> (True, counts(clientId \<mapsto> (1, now + 60000)))
      | Some (count, resetTime) \<Rightarrow>
          if now > resetTime then (True, counts(clientId \<mapsto> (1, now + 60000)))
          else if count \<ge> rateLimit then (False, counts)
          else (True, counts(clientId \<mapsto> (count + 1, resetTime))))"


subsection \<open>Tools\<close>

text \<open>\<open>validate\<close> and its variants on an argument that may be absent.\<close>

definition validateWithExtension_arg :: "MCPServer \<Rightarrow> string option \<Rightarrow> error + string" where
  "validateWithExtension_arg s path =
     (case path of
        None \<Rightarrow> Inl PathRequired
      | Some p \<Rightarrow> validateWithExtension (processCwd s) (vaultPath s) p True)"

definition validate_arg :: "MCPServer \<Rightarrow> string option \<Rightarrow> error + string" where
  "validate_arg s path =
     (case path of None \<Rightarrow> Inl PathRequired | Some p \<Rightarrow> validate (processCwd s) (vaultPath s) p)"

definition readNote :: "Collaborators \<Rightarrow> string option \<Rightarrow> MCPServer \<Rightarrow> (error + ToolResponse) \<times> MCPServer" where
  "readNote c path s =
     (case validateWithExtension_arg s path of
        Inl e \<Rightarrow> (Inl e, s)
      | Inr sanitized \<Rightarrow>
          let s1 = srv_call (GetAbstractFileByPath sanitized) s
          in if fileAt c sanitized \<noteq> TFile then (Inl (NoteNotFound path), s1)
             else
               let s2 = srv_call (VaultRead sanitized) s1
               in case readResult c sanitized of
                    Inl e \<Rightarrow> (Inl e, s2)
                  | Inr content \<Rightarrow> (Inr Content, srv_logToolCall ''read_note'' path True None s2))"

definition ensureFolder :: "Collaborators \<Rightarrow> string \<Rightarrow> MCPServer \<Rightarrow> (error + unit) \<times> MCPServer" where
  "ensureFolder c path s =
     (case validateFolder (processCwd s) (vaultPath s) path of
        Inl e \<Rightarrow> (Inl e, s)
      | Inr sanitized \<Rightarrow>
          let s1 = srv_call (GetAbstractFileByPath sanitized) s
          in if fileAt c sanitized \<noteq> NoEntry then (Inr (), s1)
             else
               let s2 = srv_call (VaultCreateFolder sanitized) s1
               in case createFolderError c sanitized of
                    Some e \<Rightarrow> (Inl e, s2)
                  | None \<Rightarrow> (Inr (), s2))"

text \<open>\<open>p.substring(0, p.lastIndexOf('/'))\<close>: empty when \<open>p\<close> has no slash.\<close>

definition beforeLastSlash :: "string \<Rightarrow> string" where
  "beforeLastSlash p = rev (drop 1 (dropWhile (\<lambda>c. c \<noteq> CHR ''/'') (rev p)))"

text \<open>The last steps of \<open>writeNote\<close>: parent folder, then \<open>modify\<close> or \<open>create\<close>, then the log.\<close>

definition writeContent ::
  "Collaborators \<Rightarrow> string option \<Rightarrow> string \<Rightarrow> string option \<Rightarrow> MCPServer
   \<Rightarrow> (error + ToolResponse) \<times> MCPServer" where
  "writeContent c path normalizedPath content s =
     (case (if beforeLastSlash normalizedPath \<noteq> []
            then ensureFolder c (beforeLastSlash normalizedPath) s else (Inr (), s)) of
        (Inl e, s1) \<Rightarrow> (Inl e, s1)
      | (Inr u, s1) \<Rightarrow>
          if fileAt c normalizedPath = TFile
          then let s2 = srv_call (VaultModify normalizedPath content) s1
               in (case modifyError c normalizedPath of
                     Some e \<Rightarrow> (Inl e, s2)
                   | None \<Rightarrow> (Inr Content, srv_logToolCall ''write_note'' path True None s2))
          else let s2 = srv_call (VaultCreate normalizedPath content) s1
               in (case createError c normalizedPath of
                     Some e \<Rightarrow> (Inl e, s2)
                   | None \<Rightarrow> (Inr Content, srv_logToolCall ''write_note'' path True None s2)))"

text \<open>
  \<open>writeNote(path, content, mode = 'replace')\<close>. An absent \<open>content\<close> is handed on as
  it is; string concatenation in \<open>append\<close> mode turns it into the text \<open>undefined\<close>.
\<close>

definition writeNote ::
  "Collaborators \<Rightarrow> string option \<Rightarrow> string option \<Rightarrow> string option \<Rightarrow> MCPServer
   \<Rightarrow> (error + ToolResponse) \<times> MCPServer" where
  "writeNote c path content mode s =
     (case validateWithExtension_arg s path of
        Inl e \<Rightarrow> (Inl e, s)
      | Inr normalizedPath \<Rightarrow>
          let m = (case mode of None \<Rightarrow> ''replace'' | Some m' \<Rightarrow> m');
              s1 = srv_call (GetAbstractFileByPath normalizedPath) s
          in if m = ''create'' \<and> fileAt c normalizedPath \<noteq> NoEntry
             then (Inl (NoteAlreadyExists path), s1)
             else if m = ''append''
             then (if fileAt c normalizedPath \<noteq> TFile then (Inl (NoteNotFoundForAppend path), s1)
                   else
                     let s2 = srv_call (VaultRead normalizedPath) s1
                     in case readResult c normalizedPath of
                          Inl e \<Rightarrow> (Inl e, s2)
                        | Inr existing \<Rightarrow>
                            writeContent c path normalizedPath
                              (Some (existing @ [CHR 0x0A]
                                     @ (case content of None \<Rightarrow> ''undefined'' | Some t \<Rightarrow> t)))
                              s2)
             else writeContent c path normalizedPath content s1)"

definition searchVault :: "Collaborators \<Rightarrow> string option \<Rightarrow> MCPServer \<Rightarrow> (error + ToolResponse) \<times> MCPServer" where
  "searchVault c query s =
     (let s1 = srv_call QmdIsAvailable s
      in if \<not> qmdAvailable c then (Inr (IsError QmdNotAvailable), s1)
         else
           let s2 = srv_call (QmdSearch query) s1
           in case searchError c of
                Some e \<Rightarrow> (Inl e, s2)
              | None \<Rightarrow> (Inr Content, srv_logToolCall ''search_vault'' None True None s2))"

text \<open>\<open>listNotes(folder = '', ...)\<close>: an absent folder is the empty string.\<close>

definition listNotes :: "Collaborators \<Rightarrow> string option \<Rightarrow> MCPServer \<Rightarrow> (error + ToolResponse) \<times> MCPServer" where
  "listNotes c folderArg s =
     (let folder = (case folderArg of None \<Rightarrow> [] | Some f \<Rightarrow> f)
      in case validateFolder (processCwd s) (vaultPath s) folder of
           Inl e \<Rightarrow> (Inl e, s)
         | Inr sanitized \<Rightarrow>
             (Inr Content, srv_logToolCall ''list_notes'' (Some folder) True None
                             (srv_call GetMarkdownFiles s)))"

definition listTasks :: "Collaborators \<Rightarrow> MCPServer \<Rightarrow> (error + ToolResponse) \<times> MCPServer" where
  "listTasks c s =
     (let s1 = srv_call QueryTasks s
      in case queryError c of
           Some e \<Rightarrow> (Inl e, s1)
         | None \<Rightarrow> (Inr Content, srv_logToolCall ''list_tasks'' None True None s1))"

definition addTask :: "Collaborators \<Rightarrow> ToolArgs \<Rightarrow> MCPServer \<Rightarrow> (error + ToolResponse) \<times> MCPServer" where
  "addTask c args s =
     (case validateWithExtension_arg s (arg_notePath args) of
        Inl e \<Rightarrow> (Inl e, s)
      | Inr sanitized \<Rightarrow>
          let s1 = srv_call (TasksAddTask (arg_description args) sanitized) s
          in case addTaskError c sanitized of
               Some e \<Rightarrow> (Inl e, s1)
             | None \<Rightarrow> (Inr Content, srv_logToolCall ''add_task'' (arg_notePath args) True None s1))"

definition completeTask :: "Collaborators \<Rightarrow> string option \<Rightarrow> MCPServer \<Rightarrow> (error + ToolResponse) \<times> MCPServer" where
  "completeTask c taskId s =
     (let s1 = srv_call (TasksCompleteTask taskId) s
      in case completeTaskError c taskId of
           Some e \<Rightarrow> (Inl e, s1)
         | None \<Rightarrow> (Inr Content, srv_logToolCall ''complete_task'' taskId True None s1))"

subsection \<open>Dispatch\<close>

text \<open>
  \<open>await requestApproval(operation)\<close> seen from one tool call: the request is made under
  the identifier \<open>ident\<close> and then resolved in the way \<open>how\<close> (the user's answer, the
  expiry of the timer, or \<open>cancelAll\<close>). The result is \<open>None\<close> when the promise is left
  unsettled, in which case the call never returns.
\<close>

definition awaitApproval ::
  "resolution \<Rightarrow> string \<Rightarrow> MCPOperation \<Rightarrow> OperationGuard \<Rightarrow> (bool \<times> OperationGuard) option" where
  "awaitApproval how ident operation g =
     (case requestApproval operation ident g of
        (g1, promise) \<Rightarrow>
          let g2 = (case how of
                      ByUser approved \<Rightarrow> modalCallback ident approved g1
                    | ByTimeout \<Rightarrow> elapse approvalTimeout g1
                    | ByCancel \<Rightarrow> cancelAll g1)
          in map_option (\<lambda>approved. (approved, g2)) (promise_value g2 promise))"

definition guarded ::
  "resolution \<Rightarrow> string \<Rightarrow> MCPOperation \<Rightarrow> (MCPServer \<Rightarrow> (error + ToolResponse) \<times> MCPServer)
   \<Rightarrow> MCPServer \<Rightarrow> ((error + ToolResponse) \<times> MCPServer) option" where
  "guarded how ident operation executor s =
     (let st = og_settings (operationGuard s)
      in if requiresApproval st operation
         then (case awaitApproval how ident operation (operationGuard s) of
                 None \<Rightarrow> None
               | Some (approved, g) \<Rightarrow>
                   Some (executeWithApproval st operation approved executor
                           (s\<lparr>operationGuard := g\<rparr>)))
         else Some (executeWithApproval st operation True executor s))"

definition dispatch ::
  "Collaborators \<Rightarrow> resolution \<Rightarrow> string \<Rightarrow> MCPOperation \<Rightarrow> string \<Rightarrow> ToolArgs \<Rightarrow> MCPServer
   \<Rightarrow> ((error + ToolResponse) \<times> MCPServer) option" where
  "dispatch c how ident operation tool args s =
     (if tool = ''read_note'' then Some (readNote c (arg_path args) s)
      else if tool = ''write_note''
      then guarded how ident operation
             (writeNote c (arg_path args) (arg_content args) (arg_mode args)) s
      else if tool = ''search_vault'' then Some (searchVault c (arg_query args) s)
      else if tool = ''list_notes'' then Some (listNotes c (arg_folder args) s)
      else if tool = ''list_tasks'' then Some (listTasks c s)
      else if tool = ''add_task'' then guarded how ident operation (addTask c args) s
      else if tool = ''complete_task''
      then guarded how ident operation (completeTask c (arg_taskId args)) s
      else Some (Inr (IsError (UnknownTool tool)), s))"

text \<open>\<open>executeTool(tool, args)\<close>: the \<open>switch\<close> inside \<open>try\<close>, and the \<open>catch\<close>.\<close>

definition executeTool ::
  "Collaborators \<Rightarrow> resolution \<Rightarrow> string \<Rightarrow> string \<Rightarrow> ToolArgs \<Rightarrow> MCPServer
   \<Rightarrow> (ToolResponse \<times> MCPServer) option" where
  "executeTool c how ident tool args s =
     (let operation = \<lparr>op_tool = tool, op_path = arg_path args, op_action = arg_mode args,
                       op_timestamp = clock (operationGuard s), op_clientId = None\<rparr>
      in case dispatch c how ident operation tool args s of
           None \<Rightarrow> None
         | Some (Inr response, s1) \<Rightarrow> Some (response, s1)
         | Some (Inl e, s1) \<Rightarrow>
             Some (IsError (Thrown e), srv_logToolCall tool (arg_path args) False (Some e) s1))"

subsection \<open>Request handling\<close>

definition ALLOWED_ORIGINS :: "string list" where
  "ALLOWED_ORIGINS =
     [''http://localhost'', ''http://127.0.0.1'', ''https://localhost'', ''https://127.0.0.1'',
      ''app://obsidian.md'']"

text \<open>
  What \<open>readBody\<close> and \<open>JSON.parse\<close> make of the body: the body never ends (the read
  has no timeout), the read fails (too large, or a stream error), the text is not JSON,
  it is the JSON \<open>null\<close>, or it is a value whose \<open>tool\<close> member is a string (\<open>Some\<close>)
  or anything else (\<open>None\<close>).
\<close>

datatype request_body =
    BodyNeverEnds
  | BodyReadError
  | InvalidJson
  | JsonNull
  | JsonValue "string option" ToolArgs

text \<open>
  A request. \<open>req_pathname\<close> is what \<open>new URL(req.url || '/', 'http://127.0.0.1')\<close>
  makes of the request target: the \<open>pathname\<close> of the URL, or \<open>None\<close> when the
  constructor throws (as it does for the target \<open>//\<close>). \<open>req_how\<close> and \<open>req_ident\<close> say
  how an approval requested for this call is resolved and under which identifier it is
  made.
\<close>

record Request =
  req_method :: string
  req_origin :: "string option"
  req_remoteAddress :: "string option"
  req_pathname :: "string option"
  req_authorization :: "string option"
  req_body :: request_body
  req_how :: resolution
  req_ident :: string

datatype response_body =
    NoBody
  | ErrorBody string
  | HealthBody
  | TokenBody string
  | ToolsBody
  | ResultBody ToolResponse

record Response =
  status :: nat
  allowOrigin :: "string option"
  body :: response_body

definition corsOrigin :: "Request \<Rightarrow> string option" where
  "corsOrigin req =
     (case req_origin req of
        None \<Rightarrow> None
      | Some origin \<Rightarrow>
          if origin \<noteq> [] \<and> list_ex (\<lambda>allowed. startsWith origin allowed) ALLOWED_ORIGINS
          then Some origin else None)"

definition respond :: "Request \<Rightarrow> nat \<Rightarrow> response_body \<Rightarrow> Response" where
  "respond req code b = \<lparr>status = code, allowOrigin = corsOrigin req, body = b\<rparr>"

definition clientIp :: "Request \<Rightarrow> string" where
  "clientIp req =
     (case req_remoteAddress req of
        None \<Rightarrow> ''unknown''
      | Some a \<Rightarrow> if a = [] then ''unknown'' else a)"

definition isLoopback :: "string \<Rightarrow> bool" where
  "isLoopback ip = (ip = ''127.0.0.1'' \<or> ip = ''::1'' \<or> ip = ''::ffff:127.0.0.1'')"

definition authorized :: "MCPServer \<Rightarrow> Request \<Rightarrow> bool" where
  "authorized s req =
     (case req_authorization req of
        None \<Rightarrow> False
      | Some authHeader \<Rightarrow> authHeader \<noteq> [] \<and> authHeader = ''Bearer '' @ authToken s)"

text \<open>
  The routes behind the authentication check. \<open>None\<close>: the handler never gets past an
  \<open>await\<close>, and the request is never answered.
\<close>

definition routeAuthenticated ::
  "Collaborators \<Rightarrow> Request \<Rightarrow> string \<Rightarrow> MCPServer \<Rightarrow> (Response option \<times> MCPServer) option" where
  "routeAuthenticated c req pathname s =
     (if pathname = ''/mcp/tools'' \<and> req_method req = ''GET''
      then Some (Some (respond req 200 ToolsBody), s)
      else if pathname = ''/mcp/call'' \<and> req_method req = ''POST''
      then (case req_body req of
              BodyNeverEnds \<Rightarrow> None
            | BodyReadError \<Rightarrow> Some (Some (respond req 500 (ErrorBody ''Request body error'')), s)
            | InvalidJson \<Rightarrow> Some (Some (respond req 400 (ErrorBody ''Invalid JSON body'')), s)
            | JsonNull \<Rightarrow> Some (Some (respond req 500 (ErrorBody ''TypeError'')), s)
            | JsonValue tool args \<Rightarrow>
                (case tool of
                   None \<Rightarrow>
                     Some (Some (respond req 400
                                   (ErrorBody ''Missing or invalid tool parameter'')), s)
                 | Some t \<Rightarrow>
                     if t = []
                     then Some (Some (respond req 400
                                        (ErrorBody ''Missing or invalid tool parameter'')), s)
                     else map_option
                            (\<lambda>(result, s1). (Some (respond req 200 (ResultBody result)), s1))
                            (executeTool c (req_how req) (req_ident req) t args s)))
      else Some (Some (respond req 404 (ErrorBody ''Not found'')), s))"

text \<open>
  \<open>handleRequest(req, res)\<close>. \<open>Date.now()\<close> is the clock of the guard. The result is
  \<open>None\<close> when the handler never returns; otherwise it holds the response written, or
  \<open>None\<close> in its place when none is written: the URL constructor stands before the
  \<open>try\<close>, so its exception leaves the handler, after the request has been counted, and
  nothing answers the request.
\<close>

definition handleRequest ::
  "Collaborators \<Rightarrow> Request \<Rightarrow> MCPServer \<Rightarrow> (Response option \<times> MCPServer) option" where
  "handleRequest c req s =
     (if req_method req = ''OPTIONS'' then Some (Some (respond req 204 NoBody), s)
      else
        case checkRateLimit (clientIp req) (clock (operationGuard s)) (requestCounts s) of
          (admitted, counts) \<Rightarrow>
            let s1 = s\<lparr>requestCounts := counts\<rparr>
            in if \<not> admitted
               then Some (Some (respond req 429 (ErrorBody ''Too many requests'')), s1)
               else if req_method req \<noteq> ''POST'' \<and> req_method req \<noteq> ''GET''
               then Some (Some (respond req 405 (ErrorBody ''Method not allowed'')), s1)
               else
                 case req_pathname req of
                   None \<Rightarrow> Some (None, s1)
                 | Some pathname \<Rightarrow>
                     if pathname = ''/health'' then Some (Some (respond req 200 HealthBody), s1)
                     else if pathname = ''/auth/token'' \<and> req_method req = ''GET''
                     then (if isLoopback (clientIp req)
                           then Some (Some (respond req 200 (TokenBody (authToken s1))), s1)
                           else Some (Some (respond req 403 (ErrorBody ''Forbidden'')), s1))
                     else if \<not> authorized s1 req
                     then Some (Some (respond req 401 (ErrorBody ''Unauthorized'')), s1)
                     else routeAuthenticated c req pathname s1)"





section \<open>Invariants of the guard, used in the proofs\<close>







definition failed :: "nat \<Rightarrow> OperationGuard \<Rightarrow> bool" where
  "failed promise g \<longleftrightarrow>
     (promise, ByTimeout) \<in> set (settled g) \<or> (promise, ByCancel) \<in> set (settled g)"

section \<open>Example values\<close>

definition example_settings :: ObsidianCCSettings where
  "example_settings = \<lparr>requireApproval = True, auditLogging = True, debugMode = False\<rparr>"

definition example_write :: MCPOperation where
  "example_write = \<lparr>op_tool = ''write_note'', op_path = Some ''Projects/a.md'',
                     op_action = Some ''create'', op_timestamp = 0, op_clientId = None\<rparr>"

definition example_guard :: OperationGuard where
  "example_guard = OperationGuard_new example_settings (AuditLogger_new example_settings) 0"

definition example_collab :: Collaborators where
  "example_collab =
     \<lparr>fileAt = (\<lambda>p. if p = ''Projects/a.md'' then TFile else NoEntry),
      readResult = (\<lambda>p. Inr ''text''),
      modifyError = (\<lambda>p. None),
      createError = (\<lambda>p. None),
      createFolderError = (\<lambda>p. None),
      qmdAvailable = False,
      searchError = None,
      queryError = None,
      addTaskError = (\<lambda>p. None),
      completeTaskError = (\<lambda>t. None)\<rparr>"

definition example_server :: MCPServer where
  "example_server =
     \<lparr>operationGuard = example_guard, authToken = ''token-1'', requestCounts = Map.empty,
      vaultPath = ''/vault'', processCwd = ''/'', collabCalls = []\<rparr>"

definition no_args :: ToolArgs where
  "no_args =
     \<lparr>arg_path = None, arg_content = None, arg_mode = None, arg_query = None,
      arg_folder = None, arg_notePath = None, arg_description = None, arg_taskId = None\<rparr>"

definition example_request :: Request where
  "example_request =
     \<lparr>req_method = ''GET'', req_origin = None, req_remoteAddress = Some ''10.0.0.5'',
      req_pathname = Some ''/auth/token'', req_authorization = None, req_body = InvalidJson,
      req_how = ByUser True, req_ident = ''id1''\<rparr>"


section \<open>Properties of AuditLogger\<close>

lemma log_length_le:
  "length (logs a) \<le> maxLogSize \<Longrightarrow> length (logs (log now ev a)) \<le> maxLogSize"
  by (simp add: log_def Let_def slice_last_def maxLogSize_def)

lemma logger_step_length_le:
  "length (logs a) \<le> maxLogSize \<Longrightarrow> length (logs (logger_step c a)) \<le> maxLogSize"
  by (cases c) (simp_all add: log_length_le clearLogs_def updateSettings_def)

lemma fold_logger_step_length_le:
  "length (logs a) \<le> maxLogSize \<Longrightarrow> length (logs (fold logger_step cs a)) \<le> maxLogSize"
  by (induction cs arbitrary: a) (simp_all add: logger_step_length_le)

lemma log_enabled_logs:
  "auditLogging (settings a) \<Longrightarrow>
     logs (log now ev a) = drop (Suc (length (logs a)) - maxLogSize) (logs a @ [stamp now ev])"
  by (simp add: log_def Let_def slice_last_def)

text \<open>
  C8. Whatever calls a logger has received since its construction, its buffer holds at
  most 1000 entries. A \<open>log\<close> call with audit logging enabled leaves the old buffer
  followed by the new entry, minus as many entries at the front as exceed 1000: the oldest
  go first and the survivors keep their order. At capacity exactly the oldest entry goes.
\<close>

theorem audit_buffer_bounded_fifo:
  "length (logs (logger_run calls (AuditLogger_new st))) \<le> 1000
   \<and> (auditLogging (settings a) \<longrightarrow>
        length (logs (log now ev a)) \<le> 1000
        \<and> logs (log now ev a) = drop (Suc (length (logs a)) - 1000) (logs a @ [stamp now ev]))
   \<and> (auditLogging (settings a) \<and> length (logs a) = 1000 \<longrightarrow>
        logs (log now ev a) = tl (logs a) @ [stamp now ev])
   \<and> (auditLogging (settings a) \<and> length (logs a) < 1000 \<longrightarrow>
        logs (log now ev a) = logs a @ [stamp now ev])"
proof -
  have bound: "length (logs (logger_run calls (AuditLogger_new st))) \<le> 1000"
    using fold_logger_step_length_le [of "AuditLogger_new st" calls]
    by (simp add: logger_run_def AuditLogger_new_def maxLogSize_def)
  have full: "logs (log now ev a) = tl (logs a) @ [stamp now ev]"
    if "auditLogging (settings a)" "length (logs a) = 1000"
  proof -
    from that(2) obtain x xs where "logs a = x # xs"
      by (cases "logs a") auto
    with that show ?thesis
      by (simp add: log_enabled_logs maxLogSize_def)
  qed
  show ?thesis
    using bound full
    by (auto simp: log_enabled_logs maxLogSize_def)
qed

theorem audit_buffer_bounded_fifo_witness:
  "auditLogging (settings \<lparr>settings = \<lparr>requireApproval = True, auditLogging = True, debugMode = False\<rparr>,
                            logs = replicate 1000 (stamp 0 \<lparr>entry_type = tool_call, entry_tool = Some ''read_note'',
                               entry_path = Some ''a.md'', entry_clientId = None, entry_success = True,
                               entry_error = None, entry_details = None\<rparr>)\<rparr>)
   \<and> length (logs \<lparr>settings = \<lparr>requireApproval = True, auditLogging = True, debugMode = False\<rparr>,
                            logs = replicate 1000 (stamp 0 \<lparr>entry_type = tool_call, entry_tool = Some ''read_note'',
                               entry_path = Some ''a.md'', entry_clientId = None, entry_success = True,
                               entry_error = None, entry_details = None\<rparr>)\<rparr>) = 1000
   \<and> logs (log 1 \<lparr>entry_type = tool_call, entry_tool = Some ''write_note'',
                               entry_path = Some ''b.md'', entry_clientId = None, entry_success = False,
                               entry_error = Some OperationDenied, entry_details = None\<rparr>
          \<lparr>settings = \<lparr>requireApproval = True, auditLogging = True, debugMode = False\<rparr>,
                            logs = replicate 1000 (stamp 0 \<lparr>entry_type = tool_call, entry_tool = Some ''read_note'',
                               entry_path = Some ''a.md'', entry_clientId = None, entry_success = True,
                               entry_error = None, entry_details = None\<rparr>)\<rparr>)
       = replicate 999 (stamp 0 \<lparr>entry_type = tool_call, entry_tool = Some ''read_note'',
                               entry_path = Some ''a.md'', entry_clientId = None, entry_success = True,
                               entry_error = None, entry_details = None\<rparr>)
         @ [stamp 1 \<lparr>entry_type = tool_call, entry_tool = Some ''write_note'',
                               entry_path = Some ''b.md'', entry_clientId = None, entry_success = False,
                               entry_error = Some OperationDenied, entry_details = None\<rparr>]"
  using audit_buffer_bounded_fifo
    [of "[]" "\<lparr>requireApproval = True, auditLogging = True, debugMode = False\<rparr>"
        "\<lparr>settings = \<lparr>requireApproval = True, auditLogging = True, debugMode = False\<rparr>,
                            logs = replicate 1000 (stamp 0 \<lparr>entry_type = tool_call, entry_tool = Some ''read_note'',
                               entry_path = Some ''a.md'', entry_clientId = None, entry_success = True,
                               entry_error = None, entry_details = None\<rparr>)\<rparr>"
        "1"
        "\<lparr>entry_type = tool_call, entry_tool = Some ''write_note'',
                               entry_path = Some ''b.md'', entry_clientId = None, entry_success = False,
                               entry_error = Some OperationDenied, entry_details = None\<rparr>"]
  by (simp add: tl_replicate)

section \<open>Properties of the path primitives\<close>

lemma split_nonempty: "split sep s \<noteq> []"
  by (induction s) (auto split: list.splits)

lemma split_append_sep: "split sep (a @ sep # b) = split sep a @ split sep b"
proof (induction a)
  case Nil
  then show ?case by simp
next
  case (Cons c a)
  then show ?case
    using split_nonempty [of sep a]
    by (cases "split sep a") auto
qed

lemma split_snoc_sep: "split sep (a @ [sep]) = split sep a @ [[]]"
  using split_append_sep [of sep a "[]"] by simp

lemma str_includes_sublist: "str_includes s p = sublist p s"
  by (induction s) (auto simp: sublist_Cons_right)

lemma str_includes_single: "str_includes s [c] = (c \<in> set s)"
  by (induction s) auto

lemma foldl_normalizeStep_plain:
  "''..'' \<notin> set segs \<Longrightarrow>
   foldl (normalizeStep b) res segs = res @ filter (\<lambda>s. s \<noteq> [] \<and> s \<noteq> ''.'') segs"
  by (induction segs arbitrary: res) (auto simp: normalizeStep_def)

lemma join_append:
  "xs \<noteq> [] \<Longrightarrow> ys \<noteq> [] \<Longrightarrow> join sep (xs @ ys) = join sep xs @ sep @ join sep ys"
proof (induction sep xs rule: join.induct)
  case (1 sep)
  then show ?case by simp
next
  case (2 sep p)
  then show ?case by (cases ys) simp_all
next
  case (3 sep p q ps)
  then show ?case by simp
qed

lemma segment_sublist: "seg \<in> set (split sep s) \<Longrightarrow> sublist seg s"
proof (induction s arbitrary: seg)
  case Nil
  then show ?case by simp
next
  case (Cons c s)
  show ?case
  proof (cases "c = sep")
    case True
    with Cons show ?thesis
      by (auto simp: sublist_Cons_right)
  next
    case False
    obtain h t where ht: "split sep s = h # t"
      using split_nonempty [of sep s] by (cases "split sep s") auto
    from Cons.prems False ht have "seg = c # h \<or> seg \<in> set t"
      by simp
    then show ?thesis
    proof
      assume "seg = c # h"
      moreover have "prefix h s"
        using ht
      proof (induction s arbitrary: h t)
        case Nil
        then show ?case by simp
      next
        case (Cons d s)
        then show ?case
          using split_nonempty [of sep s]
          by (cases "split sep s") (auto split: if_splits list.splits)
      qed
      ultimately show ?thesis
        by (simp add: sublist_Cons_right)
    next
      assume "seg \<in> set t"
      with ht Cons.IH [of seg] show ?thesis
        by (simp add: sublist_Cons_right)
    qed
  qed
qed

lemma collapse_hd_dot:
  "prefix ''.'' (collapseSeparators False cs) \<Longrightarrow> prefix ''.'' cs"
  by (cases cs) (auto simp: isSeparator_def split: if_splits)

lemma collapse_no_dotdot:
  "sublist ''..'' (collapseSeparators b s) \<Longrightarrow> sublist ''..'' s"
proof (induction s arbitrary: b)
  case Nil
  then show ?case by simp
next
  case (Cons c s)
  show ?case
  proof (cases "isSeparator c")
    case True
    with Cons.prems have "sublist ''..'' (collapseSeparators True s)"
      by (auto simp: sublist_Cons_right split: if_splits)
    then show ?thesis
      using Cons.IH by (simp add: sublist_Cons_right)
  next
    case False
    with Cons.prems have
      "prefix ''..'' (c # collapseSeparators False s) \<or> sublist ''..'' (collapseSeparators False s)"
      by (simp add: sublist_Cons_right)
    then show ?thesis
    proof
      assume "prefix ''..'' (c # collapseSeparators False s)"
      then have "c = CHR ''.''" "prefix ''.'' (collapseSeparators False s)"
        by auto
      then show ?thesis
        using collapse_hd_dot [of s] by (simp add: sublist_Cons_right)
    next
      assume "sublist ''..'' (collapseSeparators False s)"
      then show ?thesis
        using Cons.IH by (simp add: sublist_Cons_right)
    qed
  qed
qed

lemma prefix_rev_dropWhile_rev: "prefix (rev (dropWhile P (rev t))) t"
proof -
  have "rev t = takeWhile P (rev t) @ dropWhile P (rev t)"
    by simp
  then have "t = rev (dropWhile P (rev t)) @ rev (takeWhile P (rev t))"
    by (metis rev_append rev_rev_ident)
  then show ?thesis
    by (metis prefixI)
qed

lemma stripSlashes_sublist: "sublist (stripSlashes s) s"
proof -
  have "prefix (stripSlashes s) (dropWhile (\<lambda>c. c = CHR ''/'') s)"
    unfolding stripSlashes_def by (rule prefix_rev_dropWhile_rev)
  moreover have "suffix (dropWhile (\<lambda>c. c = CHR ''/'') s) s"
    by (rule suffix_dropWhile)
  ultimately show ?thesis
    by (meson prefix_imp_sublist suffix_imp_sublist sublist_order.order_trans)
qed

lemma map_no_dotdot:
  assumes f: "\<And>c. f c = CHR ''.'' \<Longrightarrow> c = CHR ''.''"
  shows "sublist ''..'' (map f s) \<Longrightarrow> sublist ''..'' s"
proof (induction s)
  case Nil
  then show ?case by simp
next
  case (Cons c s)
  from Cons.prems have "prefix ''..'' (f c # map f s) \<or> sublist ''..'' (map f s)"
    by (simp add: sublist_Cons_right)
  then show ?case
  proof
    assume p: "prefix ''..'' (f c # map f s)"
    then have "f c = CHR ''.''"
      by auto
    then have c: "c = CHR ''.''"
      by (rule f)
    from p obtain d t where s: "s = d # t" and "f d = CHR ''.''"
      by (cases s) auto
    then have "d = CHR ''.''"
      using f by blast
    with c s show ?thesis
      by (simp add: sublist_Cons_right)
  next
    assume "sublist ''..'' (map f s)"
    then show ?thesis
      using Cons.IH by (simp add: sublist_Cons_right)
  qed
qed

lemma normalizePath_no_dotdot:
  assumes "\<not> str_includes p ''..''"
  shows "\<not> sublist ''..'' (normalizePath p)"
proof
  assume a: "sublist ''..'' (normalizePath p)"
  let ?f = "\<lambda>c. if c = CHR 0xA0 then CHR '' '' else c"
  let ?st = "stripSlashes (collapseSeparators False p)"
  have m: "sublist ''..'' (map ?f xs) \<Longrightarrow> sublist ''..'' xs" for xs
    by (rule map_no_dotdot [where f = ?f]) (simp_all split: if_splits)
  from a have "sublist ''..'' (if ?st = [] then ''/'' else ?st)"
    unfolding normalizePath_def Let_def by (rule m)
  then have "sublist ''..'' ?st"
    by (auto simp: sublist_Cons_right split: if_splits)
  then have "sublist ''..'' (collapseSeparators False p)"
    using stripSlashes_sublist sublist_order.order_trans by blast
  then have "sublist ''..'' p"
    by (rule collapse_no_dotdot)
  with assms show False
    by (simp add: str_includes_sublist)
qed

lemma normalizePath_segments_no_dotdot:
  "\<not> str_includes p ''..'' \<Longrightarrow> ''..'' \<notin> set (split CHR ''/'' (normalizePath p))"
  using normalizePath_no_dotdot segment_sublist by blast

lemma normalizePath_nonempty: "normalizePath p \<noteq> []"
  by (simp add: normalizePath_def Let_def)

lemma stripSlashes_hd:
  assumes "stripSlashes s \<noteq> []"
  shows "hd (stripSlashes s) \<noteq> CHR ''/''"
proof -
  let ?d = "dropWhile (\<lambda>c. c = CHR ''/'') s"
  have p: "prefix (stripSlashes s) ?d"
    unfolding stripSlashes_def by (rule prefix_rev_dropWhile_rev)
  have ne: "?d \<noteq> []"
  proof
    assume "?d = []"
    with p have "stripSlashes s = []"
      by simp
    with assms show False
      by simp
  qed
  from p obtain t where "?d = stripSlashes s @ t"
    unfolding prefix_def by blast
  with assms have "hd (stripSlashes s) = hd ?d"
    by (cases "stripSlashes s") simp_all
  moreover from ne have "hd ?d \<noteq> CHR ''/''"
    using hd_dropWhile [of "\<lambda>c. c = CHR ''/''" s] by simp
  ultimately show ?thesis
    by simp
qed

lemma normalizePath_hd:
  assumes "normalizePath p \<noteq> ''/''"
  shows "hd (normalizePath p) \<noteq> CHR ''/''"
proof -
  let ?st = "stripSlashes (collapseSeparators False p)"
  from assms have ne: "?st \<noteq> []"
    by (auto simp: normalizePath_def Let_def)
  then have "hd ?st \<noteq> CHR ''/''"
    by (rule stripSlashes_hd)
  with ne show ?thesis
    by (simp add: normalizePath_def Let_def hd_map)
qed

lemma foldl_normalizeStep_snoc_empty:
  "foldl (normalizeStep b) res (segs @ [[]]) = foldl (normalizeStep b) res segs"
  by (simp add: normalizeStep_def)

lemma resolved_root_segments:
  assumes "startsWith root ''/''" and "path_resolve cwd [root] = root"
  shows "root = ''/'' @ join ''/'' (foldl (normalizeStep False) [] (split CHR ''/'' root))"
proof -
  from assms(1) obtain r where r: "root = CHR ''/'' # r"
    by (auto simp: startsWith_def prefix_def)
  have "resolveArgs [root, cwd] [] = (root @ ''/'', True)"
    by (simp add: r)
  then have "path_resolve cwd [root] = ''/'' @ normalizeString (root @ ''/'') False"
    by (simp add: path_resolve_def)
  also have "normalizeString (root @ ''/'') False
             = join ''/'' (foldl (normalizeStep False) [] (split CHR ''/'' root))"
    by (simp add: normalizeString_def split_snoc_sep foldl_normalizeStep_snoc_empty
             del: foldl_append)
  finally show ?thesis
    using assms(2) by simp
qed

lemma path_resolve_relative:
  assumes root: "startsWith root ''/''" "path_resolve cwd [root] = root"
    and n: "n \<noteq> []" "hd n \<noteq> CHR ''/''" "''..'' \<notin> set (split CHR ''/'' n)"
  shows "path_resolve cwd [root, n]
         = ''/'' @ join ''/'' (foldl (normalizeStep False) [] (split CHR ''/'' root)
                               @ filter (\<lambda>s. s \<noteq> [] \<and> s \<noteq> ''.'') (split CHR ''/'' n))"
proof -
  from root(1) obtain r where r: "root = CHR ''/'' # r"
    by (auto simp: startsWith_def prefix_def)
  have "resolveArgs [n, root, cwd] [] = (root @ ''/'' @ n @ ''/'', True)"
    using n(1,2) by (simp add: r)
  then have "path_resolve cwd [root, n] = ''/'' @ normalizeString (root @ ''/'' @ n @ ''/'') False"
    by (simp add: path_resolve_def)
  moreover have "split CHR ''/'' (root @ ''/'' @ n @ ''/'')
                 = split CHR ''/'' root @ split CHR ''/'' n @ [[]]"
    using split_append_sep [of "CHR ''/''" root "n @ ''/''"] split_snoc_sep [of "CHR ''/''" n]
    by simp
  moreover have "foldl (normalizeStep False) (foldl (normalizeStep False) [] (split CHR ''/'' root))
                   (split CHR ''/'' n)
                 = foldl (normalizeStep False) [] (split CHR ''/'' root)
                   @ filter (\<lambda>s. s \<noteq> [] \<and> s \<noteq> ''.'') (split CHR ''/'' n)"
    using n(3) by (rule foldl_normalizeStep_plain)
  ultimately show ?thesis
    by (simp add: normalizeString_def normalizeStep_def)
qed

lemma path_resolve_inside:
  assumes root: "startsWith root ''/''" "path_resolve cwd [root] = root"
    and n: "n \<noteq> []" "hd n \<noteq> CHR ''/''" "''..'' \<notin> set (split CHR ''/'' n)"
  shows "path_resolve cwd [root, n] = root
         \<or> startsWith (path_resolve cwd [root, n]) (vaultWithSep root)"
proof -
  let ?R = "foldl (normalizeStep False) [] (split CHR ''/'' root)"
  let ?T = "filter (\<lambda>s. s \<noteq> [] \<and> s \<noteq> ''.'') (split CHR ''/'' n)"
  have eq: "path_resolve cwd [root, n] = ''/'' @ join ''/'' (?R @ ?T)"
    using root n by (rule path_resolve_relative)
  have rt: "''/'' @ join ''/'' ?R = root"
    using resolved_root_segments [OF root] by simp
  show ?thesis
  proof (cases "?T = []")
    case True
    with eq rt show ?thesis by simp
  next
    case T: False
    show ?thesis
    proof (cases "?R = []")
      case True
      with rt have "root = ''/''" by simp
      with eq show ?thesis
        by (simp add: vaultWithSep_def endsWith_def startsWith_def)
    next
      case False
      from False T have "join ''/'' (?R @ ?T) = join ''/'' ?R @ ''/'' @ join ''/'' ?T"
        by (rule join_append)
      then have "path_resolve cwd [root, n] = (''/'' @ join ''/'' ?R) @ ''/'' @ join ''/'' ?T"
        using eq by simp
      then have "path_resolve cwd [root, n] = root @ ''/'' @ join ''/'' ?T"
        by (simp only: rt)
      then show ?thesis
        by (simp add: vaultWithSep_def startsWith_def)
    qed
  qed
qed

section \<open>Properties of PathValidator\<close>

lemma dangerous_iff:
  "list_ex (\<lambda>pattern. pattern p) DANGEROUS_PATTERNS
   = (str_includes p ''..'' \<or> startsWith p ''~/'' \<or> startsWith p ''$''
      \<or> includes_ignoring_case p ''%2e%2e'' \<or> includes_ignoring_case p ''%252e%252e''
      \<or> CHR 0x00 \<in> set p)"
  by (simp add: DANGEROUS_PATTERNS_def str_includes_single)

lemma validate_rejects:
  assumes "str_includes p ''..'' \<or> startsWith p ''/'' \<or> startsWith p ''~/'' \<or> startsWith p ''$''
           \<or> hasDriveLetter p \<or> CHR 0x00 \<in> set p
           \<or> includes_ignoring_case p ''%2e%2e'' \<or> includes_ignoring_case p ''%252e%252e''"
  shows "isl (validate cwd root p)"
proof -
  from assms have "list_ex (\<lambda>pattern. pattern p) DANGEROUS_PATTERNS
                   \<or> startsWith p ''/'' \<or> hasDriveLetter p"
    unfolding dangerous_iff by blast
  then show ?thesis
    by (auto simp: validate_def)
qed

lemma validate_accepts:
  assumes root: "startsWith root ''/''" "path_resolve cwd [root] = root"
    and p: "trim p \<noteq> []"
    and safe: "\<not> (str_includes p ''..'' \<or> startsWith p ''/'' \<or> startsWith p ''~/''
                \<or> startsWith p ''$'' \<or> hasDriveLetter p \<or> CHR 0x00 \<in> set p
                \<or> includes_ignoring_case p ''%2e%2e'' \<or> includes_ignoring_case p ''%252e%252e'')"
    and seg: "normalizePath p \<noteq> ''/''"
    and hid: "\<not> list_ex isHidden (split CHR ''/'' (normalizePath p))"
  shows "validate cwd root p = Inr (normalizePath p)
         \<and> (path_resolve cwd [root, normalizePath p] = root
              \<or> startsWith (path_resolve cwd [root, normalizePath p]) (vaultWithSep root))"
proof -
  from safe have nd: "\<not> list_ex (\<lambda>pattern. pattern p) DANGEROUS_PATTERNS"
    unfolding dangerous_iff by blast
  from safe have na: "\<not> startsWith p ''/''" "\<not> hasDriveLetter p"
    by blast+
  from p have ne: "p \<noteq> []"
    by (auto simp: trim_def)
  from safe have "''..'' \<notin> set (split CHR ''/'' (normalizePath p))"
    using normalizePath_segments_no_dotdot by blast
  with root have inside:
    "path_resolve cwd [root, normalizePath p] = root
     \<or> startsWith (path_resolve cwd [root, normalizePath p]) (vaultWithSep root)"
    using normalizePath_nonempty [of p] normalizePath_hd [OF seg]
    by (intro path_resolve_inside)
  with p ne nd na hid show ?thesis
    by (auto simp: validate_def Let_def)
qed

lemma validate_only_inside:
  assumes "validate cwd root p = Inr s"
  shows "path_resolve cwd [root, normalizePath p] = root
         \<or> startsWith (path_resolve cwd [root, normalizePath p]) (vaultWithSep root)"
  using assms by (auto simp: validate_def Let_def split: if_splits)

lemma validate_rejects_sibling:
  assumes "path_resolve cwd [root, normalizePath p] = root @ c # rest"
    and "c \<noteq> CHR ''/''" and "\<not> endsWith root ''/''"
  shows "isl (validate cwd root p)"
proof (cases "validate cwd root p")
  case (Inl e)
  then show ?thesis by simp
next
  case (Inr s)
  then have "path_resolve cwd [root, normalizePath p] = root
         \<or> startsWith (path_resolve cwd [root, normalizePath p]) (vaultWithSep root)"
    by (rule validate_only_inside)
  with assms have False
    by (auto simp: startsWith_def vaultWithSep_def prefix_def)
  then show ?thesis ..
qed

text \<open>
  C1, as stated, fails on a blank input. The one-space string names the entry
  \<open>/vault/ \<close>, strictly inside the root \<open>/vault\<close>; it contains none of the rejected
  sequences and no hidden segment; \<open>validate\<close> answers "Path cannot be empty".
\<close>

theorem path_containment_blank_counterexample:
  "\<not> (str_includes '' '' ''..'' \<or> startsWith '' '' ''/'' \<or> startsWith '' '' ''~/''
      \<or> startsWith '' '' ''$'' \<or> hasDriveLetter '' '' \<or> CHR 0x00 \<in> set '' ''
      \<or> includes_ignoring_case '' '' ''%2e%2e'' \<or> includes_ignoring_case '' '' ''%252e%252e'')
   \<and> \<not> list_ex isHidden (split CHR ''/'' '' '')
   \<and> path_resolve ''/'' [''/vault'', '' ''] = ''/vault/ ''
   \<and> path_resolve ''/'' [''/vault'', '' ''] \<noteq> ''/vault''
   \<and> startsWith (path_resolve ''/'' [''/vault'', '' '']) (vaultWithSep ''/vault'')
   \<and> validate ''/'' ''/vault'' '' '' = Inl PathEmpty"
  by code_simp

text \<open>
  An input made of backslashes only is normalized to the bare \<open>/\<close>, which resolves to the
  file-system root: it is rejected as escaping the vault.
\<close>

lemma backslash_only_rejected:
  "normalizePath [CHR 0x5C] = ''/''
   \<and> validate ''/'' ''/vault'' [CHR 0x5C] = Inl EscapesVault"
  by code_simp

text \<open>
  C1, amended. Every string that contains \<open>..\<close>, begins with \<open>/\<close>, \<open>~/\<close>, \<open>$\<close> or a
  drive letter, contains a NUL, or contains \<open>%2e%2e\<close> or \<open>%252e%252e\<close> in any letter
  case is rejected. For a root that is an absolute path in resolved form, every string
  that is not blank, contains none of these sequences, whose normalized form is not the
  bare \<open>/\<close> and has no hidden segment, is accepted; the sanitized path is the normalized
  form, and resolved against the root it gives the root or a path below it.
\<close>

theorem path_containment:
  "(str_includes p ''..'' \<or> startsWith p ''/'' \<or> startsWith p ''~/'' \<or> startsWith p ''$''
      \<or> hasDriveLetter p \<or> CHR 0x00 \<in> set p
      \<or> includes_ignoring_case p ''%2e%2e'' \<or> includes_ignoring_case p ''%252e%252e''
    \<longrightarrow> isl (validate cwd root p))
   \<and> (startsWith root ''/'' \<and> path_resolve cwd [root] = root
       \<and> trim p \<noteq> []
       \<and> \<not> (str_includes p ''..'' \<or> startsWith p ''/'' \<or> startsWith p ''~/''
            \<or> startsWith p ''$'' \<or> hasDriveLetter p \<or> CHR 0x00 \<in> set p
            \<or> includes_ignoring_case p ''%2e%2e'' \<or> includes_ignoring_case p ''%252e%252e'')
       \<and> normalizePath p \<noteq> ''/''
       \<and> \<not> list_ex isHidden (split CHR ''/'' (normalizePath p))
    \<longrightarrow> validate cwd root p = Inr (normalizePath p)
        \<and> (path_resolve cwd [root, normalizePath p] = root
             \<or> startsWith (path_resolve cwd [root, normalizePath p]) (vaultWithSep root)))"
  using validate_rejects [of p cwd root] validate_accepts [of root cwd p]
  by blast

theorem path_containment_witness:
  "str_includes ''../../etc/passwd'' ''..''
   \<and> isl (validate ''/'' ''/vault'' ''../../etc/passwd'')
   \<and> startsWith ''/vault'' ''/'' \<and> path_resolve ''/'' [''/vault''] = ''/vault''
   \<and> trim ''Projects/a.md'' \<noteq> []
   \<and> normalizePath ''Projects/a.md'' \<noteq> ''/''
   \<and> \<not> list_ex isHidden (split CHR ''/'' (normalizePath ''Projects/a.md''))
   \<and> validate ''/'' ''/vault'' ''Projects/a.md'' = Inr (normalizePath ''Projects/a.md'')
   \<and> normalizePath ''Projects/a.md'' = ''Projects/a.md''
   \<and> (path_resolve ''/'' [''/vault'', normalizePath ''Projects/a.md''] = ''/vault''
        \<or> startsWith (path_resolve ''/'' [''/vault'', normalizePath ''Projects/a.md''])
              (vaultWithSep ''/vault''))"
proof -
  have bad: "str_includes ''../../etc/passwd'' ''..''"
    by code_simp
  have root: "startsWith ''/vault'' ''/'' \<and> path_resolve ''/'' [''/vault''] = ''/vault''"
    by code_simp
  have good: "trim ''Projects/a.md'' \<noteq> []
      \<and> \<not> (str_includes ''Projects/a.md'' ''..'' \<or> startsWith ''Projects/a.md'' ''/''
            \<or> startsWith ''Projects/a.md'' ''~/'' \<or> startsWith ''Projects/a.md'' ''$''
            \<or> hasDriveLetter ''Projects/a.md'' \<or> CHR 0x00 \<in> set ''Projects/a.md''
            \<or> includes_ignoring_case ''Projects/a.md'' ''%2e%2e''
            \<or> includes_ignoring_case ''Projects/a.md'' ''%252e%252e'')"
    by code_simp
  have norm: "normalizePath ''Projects/a.md'' = ''Projects/a.md''
      \<and> normalizePath ''Projects/a.md'' \<noteq> ''/''
      \<and> \<not> list_ex isHidden (split CHR ''/'' (normalizePath ''Projects/a.md''))"
    by code_simp
  show ?thesis
    using path_containment [of "''../../etc/passwd''" "''/''" "''/vault''"]
          path_containment [of "''Projects/a.md''" "''/''" "''/vault''"]
          bad root good norm
    by blast
qed

text \<open>
  C2. \<open>validate\<close> accepts an input only if the resolved path of its normalized form is
  the root itself or starts with the root followed by the separator. A resolved path that
  continues the root's name with anything but a separator is rejected, and so is every
  input that resolves to \<open>/vault-evil/x\<close> under the root \<open>/vault\<close>, of which \<open>/vault\<close> is
  a prefix as a string.
\<close>

theorem root_boundary:
  "(validate cwd root p = Inr s
    \<longrightarrow> path_resolve cwd [root, normalizePath p] = root
        \<or> startsWith (path_resolve cwd [root, normalizePath p]) (vaultWithSep root))
   \<and> (validate cwd root p = Inr s \<and> \<not> endsWith root ''/''
    \<longrightarrow> path_resolve cwd [root, normalizePath p] = root
        \<or> startsWith (path_resolve cwd [root, normalizePath p]) (root @ ''/''))
   \<and> (path_resolve cwd [root, normalizePath p] = root @ c # rest \<and> c \<noteq> CHR ''/''
       \<and> \<not> endsWith root ''/''
    \<longrightarrow> isl (validate cwd root p))
   \<and> (path_resolve cwd [''/vault'', normalizePath p] = ''/vault-evil/x''
    \<longrightarrow> isl (validate cwd ''/vault'' p) \<and> startsWith ''/vault-evil/x'' ''/vault'')"
proof -
  have "isl (validate cwd ''/vault'' p)"
    if "path_resolve cwd [''/vault'', normalizePath p] = ''/vault-evil/x''"
    using that validate_rejects_sibling [of cwd "''/vault''" p "CHR ''-''" "''evil/x''"]
    by (simp add: endsWith_def suffix_to_prefix)
  then show ?thesis
    using validate_only_inside [of cwd root p s] validate_rejects_sibling [of cwd root p c rest]
    by (auto simp: startsWith_def vaultWithSep_def)
qed

theorem root_boundary_witness:
  "validate ''/'' ''/vault'' ''Projects/a.md'' = Inr ''Projects/a.md''
   \<and> (path_resolve ''/'' [''/vault'', normalizePath ''Projects/a.md''] = ''/vault''
        \<or> startsWith (path_resolve ''/'' [''/vault'', normalizePath ''Projects/a.md''])
              (vaultWithSep ''/vault''))
   \<and> (path_resolve ''/'' [''/vault'', normalizePath ''Projects/a.md''] = ''/vault''
        \<or> startsWith (path_resolve ''/'' [''/vault'', normalizePath ''Projects/a.md''])
              (''/vault'' @ ''/''))
   \<and> path_resolve ''/'' [''/vault'', normalizePath ''../vault-evil/x'']
       = ''/vault'' @ CHR ''-'' # ''evil/x''
   \<and> CHR ''-'' \<noteq> CHR ''/'' \<and> \<not> endsWith ''/vault'' ''/''
   \<and> path_resolve ''/'' [''/vault'', normalizePath ''../vault-evil/x''] = ''/vault-evil/x''
   \<and> isl (validate ''/'' ''/vault'' ''../vault-evil/x'')
   \<and> startsWith ''/vault-evil/x'' ''/vault''"
proof -
  have ok: "validate ''/'' ''/vault'' ''Projects/a.md'' = Inr ''Projects/a.md''"
    by code_simp
  have evil: "path_resolve ''/'' [''/vault'', normalizePath ''../vault-evil/x'']
                = ''/vault'' @ CHR ''-'' # ''evil/x''
      \<and> path_resolve ''/'' [''/vault'', normalizePath ''../vault-evil/x''] = ''/vault-evil/x''
      \<and> CHR ''-'' \<noteq> CHR ''/'' \<and> \<not> endsWith ''/vault'' ''/''"
    by code_simp
  show ?thesis
    using root_boundary [of "''/''" "''/vault''" "''Projects/a.md''" "''Projects/a.md''"
                            "CHR ''-''" "''evil/x''"]
          root_boundary [of "''/''" "''/vault''" "''../vault-evil/x''" "''x''"
                            "CHR ''-''" "''evil/x''"]
          ok evil
    by blast
qed

text \<open>
  C10. \<open>validateWithExtension\<close> accepts \<open>folder/\<close> and, finding no extension, returns
  \<open>folder/.md\<close>, whose last segment begins with a dot; \<open>validate\<close> rejects that returned
  path as hidden. The round trip through \<open>validate\<close> fails for an accepted input.
\<close>

theorem extension_roundtrip_fails:
  "validateWithExtension cwd ''/vault'' ''folder/'' True = Inr ''folder/.md''
   \<and> list_ex isHidden (split CHR ''/'' ''folder/.md'')
   \<and> validate cwd ''/vault'' ''folder/.md'' = Inl HiddenPath"
  by code_simp

section \<open>Properties of OperationGuard\<close>
































lemma failed_mono:
  assumes "failed promise g" and "set (settled g) \<subseteq> set (settled g')"
  shows "failed promise g'"
  using assms unfolding failed_def by blast













section \<open>Properties of MCPServer\<close>





lemmas server_eval =
  handleRequest_def routeAuthenticated_def respond_def corsOrigin_def clientIp_def
  isLoopback_def authorized_def checkRateLimit_def rateLimit_def
  example_server_def example_request_def example_collab_def no_args_def
  example_guard_def example_settings_def example_write_def
  OperationGuard_new_def AuditLogger_new_def Let_def

lemmas tool_eval =
  executeTool_def dispatch_def guarded_def awaitApproval_def executeWithApproval_def
  readNote_def writeNote_def writeContent_def ensureFolder_def searchVault_def
  listNotes_def listTasks_def addTask_def completeTask_def srv_call_def srv_logToolCall_def
  validateWithExtension_arg_def validate_arg_def audit_logs_def entry_summary_def
  requestApproval_def modalCallback_def pending_resolve_def clearTimeout_def
  promise_value_def requiresApproval_def WRITE_TOOLS_def
  logToolCall_def logApprovalRequest_def logApprovalResponse_def log_def stamp_def
  maxLogSize_def

text \<open>
  C6 does not hold of the code. With audit logging enabled: a call of an unknown tool
  returns the error payload and leaves the server, hence the audit log, unchanged; a
  \<open>search_vault\<close> call with QMD unavailable returns the error payload and logs nothing;
  an approved \<open>add_task\<close> call whose \<open>notePath\<close> is rejected logs three entries, and
  the \<open>tool_call\<close> entry carries no path, because the \<open>catch\<close> logs \<open>args.path\<close>.
\<close>

theorem audit_gaps:
  "auditLogging (settings (auditLogger (operationGuard example_server)))
   \<and> executeTool example_collab (ByUser True) ''id1'' ''frobnicate'' no_args example_server
       = Some (IsError (UnknownTool ''frobnicate''), example_server)
   \<and> map_option fst
        (executeTool example_collab (ByUser True) ''id1'' ''search_vault''
           (no_args\<lparr>arg_query := Some ''notes about rust''\<rparr>) example_server)
       = Some (IsError QmdNotAvailable)
   \<and> map_option (audit_logs \<circ> snd)
        (executeTool example_collab (ByUser True) ''id1'' ''search_vault''
           (no_args\<lparr>arg_query := Some ''notes about rust''\<rparr>) example_server)
       = Some []
   \<and> map_option (map entry_summary \<circ> audit_logs \<circ> snd)
        (executeTool example_collab (ByUser True) ''id1'' ''add_task''
           (no_args\<lparr>arg_notePath := Some ''../x'', arg_description := Some ''todo''\<rparr>)
           example_server)
       = Some [(approval_request, Some ''add_task'', None, True),
               (approval_response, Some ''add_task'', None, True),
               (tool_call, Some ''add_task'', None, False)]"
proof -
  have v: "validateWithExtension ''/'' ''/vault'' ''../x'' True = Inl DangerousPattern"
    by code_simp
  show ?thesis
    by (simp add: tool_eval server_eval v)
qed

lemma validate_arg_guard [simp]:
  "validate_arg (s\<lparr>operationGuard := g\<rparr>) p = validate_arg s p"
  "validateWithExtension_arg (s\<lparr>operationGuard := g\<rparr>) p = validateWithExtension_arg s p"
  by (simp_all add: validate_arg_def validateWithExtension_arg_def split: option.splits)

lemma validateWithExtension_arg_fails:
  "isl (validate_arg s p) \<Longrightarrow> isl (validateWithExtension_arg s p)"
  by (auto simp: validate_arg_def validateWithExtension_arg_def validateWithExtension_def
           split: option.splits sum.splits)

lemma guarded_cases:
  assumes "guarded how ident operation executor s = Some (r, s')"
  shows "(r = Inl OperationDenied \<and> collabCalls s' = collabCalls s)
         \<or> (\<exists>g. (r, s') = executor (s\<lparr>operationGuard := g\<rparr>))"
proof (cases "requiresApproval (og_settings (operationGuard s)) operation")
  case False
  with assms have "(r, s') = executor (s\<lparr>operationGuard := operationGuard s\<rparr>)"
    by (simp add: guarded_def executeWithApproval_def)
  then show ?thesis by blast
next
  case True
  with assms obtain approved g where
    "executeWithApproval (og_settings (operationGuard s)) operation approved executor
       (s\<lparr>operationGuard := g\<rparr>) = (r, s')"
    by (auto simp: guarded_def split: option.splits)
  with True show ?thesis
    by (cases approved) (auto simp: executeWithApproval_def dest: sym)
qed

lemma srv_logToolCall_calls [simp]:
  "collabCalls (srv_logToolCall tool path ok err s) = collabCalls s"
  by (simp add: srv_logToolCall_def)

lemma executeTool_result:
  assumes "executeTool c how ident tool args s = Some (result, s')"
  shows "\<exists>r s1.
    dispatch c how ident \<lparr>op_tool = tool, op_path = arg_path args, op_action = arg_mode args,
        op_timestamp = clock (operationGuard s), op_clientId = None\<rparr> tool args s = Some (r, s1)
    \<and> collabCalls s' = collabCalls s1
    \<and> (r = Inl OperationDenied \<longrightarrow> result = IsError (Thrown OperationDenied))"
  using assms
  by (auto simp: executeTool_def Let_def split: option.splits sum.splits prod.splits)

lemma complete_task_calls:
  assumes "executeTool c how ident ''complete_task'' args s = Some (result, s')"
    and "result \<noteq> IsError (Thrown OperationDenied)"
  shows "collabCalls s' = collabCalls s @ [TasksCompleteTask (arg_taskId args)]"
proof -
  from assms(1) obtain r s1 where
    d: "dispatch c how ident \<lparr>op_tool = ''complete_task'', op_path = arg_path args,
        op_action = arg_mode args, op_timestamp = clock (operationGuard s), op_clientId = None\<rparr>
        ''complete_task'' args s = Some (r, s1)"
    and c: "collabCalls s' = collabCalls s1"
    and den: "r = Inl OperationDenied \<longrightarrow> result = IsError (Thrown OperationDenied)"
    using executeTool_result by blast
  from d have "guarded how ident \<lparr>op_tool = ''complete_task'', op_path = arg_path args,
        op_action = arg_mode args, op_timestamp = clock (operationGuard s), op_clientId = None\<rparr>
        (completeTask c (arg_taskId args)) s = Some (r, s1)"
    by (simp add: dispatch_def)
  then have "(r = Inl OperationDenied \<and> collabCalls s1 = collabCalls s)
         \<or> (\<exists>g. (r, s1) = completeTask c (arg_taskId args) (s\<lparr>operationGuard := g\<rparr>))"
    by (rule guarded_cases)
  with den assms(2) obtain g where
    "(r, s1) = completeTask c (arg_taskId args) (s\<lparr>operationGuard := g\<rparr>)"
    by blast
  then have "collabCalls s1 = collabCalls s @ [TasksCompleteTask (arg_taskId args)]"
    by (auto simp: completeTask_def Let_def srv_call_def split: option.splits)
  with c show ?thesis
    by simp
qed

lemma rejected_tools:
  assumes "isl (validateWithExtension_arg s p)"
  shows "collabCalls (snd (readNote c p s)) = collabCalls s"
    and "collabCalls (snd (writeNote c p content mode (s\<lparr>operationGuard := g\<rparr>))) = collabCalls s"
    and "arg_notePath args = p \<Longrightarrow>
         collabCalls (snd (addTask c args (s\<lparr>operationGuard := g\<rparr>))) = collabCalls s"
proof -
  from assms obtain e where e: "validateWithExtension_arg s p = Inl e"
    by (auto simp: isl_def)
  show "collabCalls (snd (readNote c p s)) = collabCalls s"
    by (simp add: readNote_def e)
  show "collabCalls (snd (writeNote c p content mode (s\<lparr>operationGuard := g\<rparr>))) = collabCalls s"
    by (simp add: writeNote_def e)
  show "collabCalls (snd (addTask c args (s\<lparr>operationGuard := g\<rparr>))) = collabCalls s"
    if "arg_notePath args = p"
    using that by (simp add: addTask_def e)
qed

lemma rejected_path_no_calls:
  assumes "executeTool c how ident tool args s = Some (result, s')"
    and "tool = ''read_note'' \<and> isl (validate_arg s (arg_path args))
         \<or> tool = ''write_note'' \<and> isl (validate_arg s (arg_path args))
         \<or> tool = ''add_task'' \<and> isl (validate_arg s (arg_notePath args))
         \<or> tool = ''list_notes'' \<and> arg_folder args = Some f \<and> f \<noteq> []
            \<and> isl (validate (processCwd s) (vaultPath s) f)"
  shows "collabCalls s' = collabCalls s"
proof -
  let ?op = "\<lparr>op_tool = tool, op_path = arg_path args, op_action = arg_mode args,
        op_timestamp = clock (operationGuard s), op_clientId = None\<rparr>"
  from assms(1) obtain r s1 where
    d: "dispatch c how ident ?op tool args s = Some (r, s1)"
    and c: "collabCalls s' = collabCalls s1"
    using executeTool_result by blast
  have "collabCalls s1 = collabCalls s"
    using assms(2)
  proof (elim disjE conjE)
    assume t: "tool = ''read_note''" and v: "isl (validate_arg s (arg_path args))"
    from v have "isl (validateWithExtension_arg s (arg_path args))"
      by (rule validateWithExtension_arg_fails)
    from rejected_tools(1) [OF this, of c] d t show ?thesis
      by (simp add: dispatch_def)
  next
    assume t: "tool = ''write_note''" and v: "isl (validate_arg s (arg_path args))"
    from v have f: "isl (validateWithExtension_arg s (arg_path args))"
      by (rule validateWithExtension_arg_fails)
    from d t have "guarded how ident ?op
        (writeNote c (arg_path args) (arg_content args) (arg_mode args)) s = Some (r, s1)"
      by (simp add: dispatch_def)
    then have "(r = Inl OperationDenied \<and> collabCalls s1 = collabCalls s)
         \<or> (\<exists>g. (r, s1) = writeNote c (arg_path args) (arg_content args) (arg_mode args)
                              (s\<lparr>operationGuard := g\<rparr>))"
      by (rule guarded_cases)
    with rejected_tools(2) [OF f, of c "arg_content args" "arg_mode args"] show ?thesis
      by (metis snd_conv)
  next
    assume t: "tool = ''add_task''" and v: "isl (validate_arg s (arg_notePath args))"
    from v have f: "isl (validateWithExtension_arg s (arg_notePath args))"
      by (rule validateWithExtension_arg_fails)
    from d t have "guarded how ident ?op (addTask c args) s = Some (r, s1)"
      by (simp add: dispatch_def)
    then have "(r = Inl OperationDenied \<and> collabCalls s1 = collabCalls s)
         \<or> (\<exists>g. (r, s1) = addTask c args (s\<lparr>operationGuard := g\<rparr>))"
      by (rule guarded_cases)
    with rejected_tools(3) [OF f, of args c] show ?thesis
      by (metis snd_conv)
  next
    assume t: "tool = ''list_notes''" and a: "arg_folder args = Some f" "f \<noteq> []"
      and v: "isl (validate (processCwd s) (vaultPath s) f)"
    from d t have "listNotes c (arg_folder args) s = (r, s1)"
      by (simp add: dispatch_def)
    moreover from v obtain e where "validate (processCwd s) (vaultPath s) f = Inl e"
      by (auto simp: isl_def)
    ultimately show ?thesis
      using a by (simp add: listNotes_def validateFolder_def)
  qed
  with c show ?thesis
    by simp
qed

text \<open>
  C9. Whenever a \<open>complete_task\<close> call returns anything but the denial of the
  approval, the tasks adapter has been called once with the \<open>taskId\<close> as given, and
  nothing else: no validation stands between the argument and the collaborator. For
  \<open>read_note\<close>, \<open>write_note\<close>, \<open>add_task\<close> and \<open>list_notes\<close>, a path argument that
  \<open>validate\<close> rejects reaches no collaborator.
\<close>

theorem complete_task_unvalidated:
  "(executeTool c how ident ''complete_task'' args s = Some (result, s')
     \<and> result \<noteq> IsError (Thrown OperationDenied)
    \<longrightarrow> collabCalls s' = collabCalls s @ [TasksCompleteTask (arg_taskId args)])
   \<and> (executeTool c how ident tool args s = Some (result, s')
       \<and> (tool = ''read_note'' \<and> isl (validate_arg s (arg_path args))
          \<or> tool = ''write_note'' \<and> isl (validate_arg s (arg_path args))
          \<or> tool = ''add_task'' \<and> isl (validate_arg s (arg_notePath args))
          \<or> tool = ''list_notes'' \<and> arg_folder args = Some f \<and> f \<noteq> []
             \<and> isl (validate (processCwd s) (vaultPath s) f))
    \<longrightarrow> collabCalls s' = collabCalls s)"
  using complete_task_calls [of c how ident args s result s']
    rejected_path_no_calls [of c how ident tool args s result s' f]
  by blast

theorem complete_task_unvalidated_witness:
  "isl (validate_arg example_server (Some ''../../etc/passwd:1''))
   \<and> map_option fst
        (executeTool example_collab (ByUser True) ''id1'' ''complete_task''
           (no_args\<lparr>arg_taskId := Some ''../../etc/passwd:1''\<rparr>) example_server)
       = Some Content
   \<and> map_option (collabCalls \<circ> snd)
        (executeTool example_collab (ByUser True) ''id1'' ''complete_task''
           (no_args\<lparr>arg_taskId := Some ''../../etc/passwd:1''\<rparr>) example_server)
       = Some (collabCalls example_server @ [TasksCompleteTask (Some ''../../etc/passwd:1'')])
   \<and> isl (validate_arg example_server (Some ''../../etc/passwd''))
   \<and> map_option (collabCalls \<circ> snd)
        (executeTool example_collab (ByUser True) ''id1'' ''write_note''
           (no_args\<lparr>arg_path := Some ''../../etc/passwd''\<rparr>) example_server)
       = Some (collabCalls example_server)"
proof -
  let ?t = "no_args\<lparr>arg_taskId := Some ''../../etc/passwd:1''\<rparr>"
  let ?w = "no_args\<lparr>arg_path := Some ''../../etc/passwd''\<rparr>"
  have v1: "validate ''/'' ''/vault'' ''../../etc/passwd:1'' = Inl DangerousPattern"
    by code_simp
  have v2: "validate ''/'' ''/vault'' ''../../etc/passwd'' = Inl DangerousPattern"
    by code_simp
  have r1: "isl (validate_arg example_server (Some ''../../etc/passwd:1''))"
    by (simp add: validate_arg_def example_server_def v1)
  have r2: "isl (validate_arg example_server (arg_path ?w))"
    by (simp add: validate_arg_def example_server_def no_args_def v2)
  have "map_option fst (executeTool example_collab (ByUser True) ''id1'' ''complete_task'' ?t
          example_server) = Some Content"
    by (simp add: tool_eval server_eval)
  then obtain s1 where e1: "executeTool example_collab (ByUser True) ''id1'' ''complete_task'' ?t
          example_server = Some (Content, s1)"
    by auto
  have "map_option fst (executeTool example_collab (ByUser True) ''id1'' ''write_note'' ?w
          example_server) = Some (IsError (Thrown OperationDenied))
        \<or> map_option fst (executeTool example_collab (ByUser True) ''id1'' ''write_note'' ?w
          example_server) = Some (IsError (Thrown DangerousPattern))"
    by (simp add: tool_eval server_eval validateWithExtension_def v2)
  then obtain res s2 where e2: "executeTool example_collab (ByUser True) ''id1'' ''write_note'' ?w
          example_server = Some (res, s2)"
    by auto
  have t: "arg_taskId ?t = Some ''../../etc/passwd:1''"
    by simp
  from complete_task_unvalidated [of example_collab "ByUser True" "''id1''" ?t example_server
      Content s1 "''complete_task''" "''x''"] e1 t
  have c1: "collabCalls s1 = collabCalls example_server @ [TasksCompleteTask (Some ''../../etc/passwd:1'')]"
    by simp
  from complete_task_unvalidated [of example_collab "ByUser True" "''id1''" ?w example_server
      res s2 "''write_note''" "''x''"] e2 r2
  have c2: "collabCalls s2 = collabCalls example_server"
    by simp
  from r1 r2 e1 e2 c1 c2 show ?thesis
    by (simp add: no_args_def)
qed

section \<open>Properties of the request handler\<close>

subsection \<open>The rate-limit records along a run\<close>


lemma srv_fields [simp]:
  "requestCounts (srv_call k s) = requestCounts s"
  "requestCounts (srv_logToolCall tool path ok err s) = requestCounts s"
  by (simp_all add: srv_call_def srv_logToolCall_def)


















subsection \<open>Runs of one request repeated\<close>







subsection \<open>What a request without the valid header gets\<close>










subsection \<open>The budget of a client\<close>




end
